theory Spec2Isabelle
  imports Main
begin

section \<open>Password-reset token store and reset flow\<close>

text \<open>
  The development embeds \<^verbatim>\<open>users/redis_utils.py\<close> (the two-tier token store),
  \<^verbatim>\<open>PasswordResetConfirmSerializer.validate\<close> of \<^verbatim>\<open>users/serializers.py\<close> and the two
  password-reset views of \<^verbatim>\<open>users/views.py\<close>. Python's exceptions are values of a sum
  type, the module globals, the two stores, the user table and the log are fields of one
  world record that every operation takes and returns.
\<close>

subsection \<open>Exceptions\<close>

datatype exn =
    ConnectionError
  | TimeoutError
  | ResponseError
  | DoesNotExist
  | MultipleObjectsReturned
  | ValueError
  | KeyError

subsection \<open>The world: module globals, the two tiers, the user table, the trace\<close>

text \<open>
  A tier maps a key to the stored value and the absolute time (in seconds) at which the
  entry expires. Both \<^verbatim>\<open>redis_client.setex(key, 600, v)\<close> and
  \<^verbatim>\<open>cache.set(key, v, timeout=600)\<close> store the time of the call plus the time to live.
\<close>

type_synonym tier = "string \<rightharpoonup> (string \<times> nat)"

definition tier_get :: "tier \<Rightarrow> nat \<Rightarrow> string \<Rightarrow> string option" where
  "tier_get t now k =
     (case t k of
        None \<Rightarrow> None
      | Some (v, expires) \<Rightarrow> if now < expires then Some v else None)"

definition tier_set :: "tier \<Rightarrow> nat \<Rightarrow> string \<Rightarrow> nat \<Rightarrow> string \<Rightarrow> tier" where
  "tier_set t now k ttl v = t(k \<mapsto> (v, now + ttl))"

definition tier_delete :: "tier \<Rightarrow> string \<Rightarrow> tier" where
  "tier_delete t k = t(k := None)"

text \<open>Every call made to a tier is recorded, whether it returns or raises.\<close>

datatype call =
    RedisSetex string nat string
  | RedisGet string
  | RedisDelete string
  | CacheSet string string nat
  | CacheGet string
  | CacheDelete string

fun is_redis_call :: "call \<Rightarrow> bool" where
  "is_redis_call (RedisSetex k ttl v) = True"
| "is_redis_call (RedisGet k) = True"
| "is_redis_call (RedisDelete k) = True"
| "is_redis_call c = False"

fun is_cache_call :: "call \<Rightarrow> bool" where
  "is_cache_call (CacheSet k v ttl) = True"
| "is_cache_call (CacheGet k) = True"
| "is_cache_call (CacheDelete k) = True"
| "is_cache_call c = False"

datatype log_entry =
    LogWarning string
  | LogInfo string
  | LogError string exn

text \<open>
  Modelled from the spec: the user model (\<^verbatim>\<open>users/models.py\<close>) is not among the sources.
  A subject has an identifier, a unique email, a hashed password credential that is
  opaque to the reset flow, and a display name. \<open>Hashed p\<close> stands for the hash that
  \<^verbatim>\<open>set_password(p)\<close> stores.
\<close>

datatype credential = Hashed string

record user =
  ident :: int
  email :: string
  password :: credential
  full_name :: string

datatype client = Redis

record world =
  redis_client :: "client option"
  redis_available :: bool
  redis :: tier
  cache :: tier
  users :: "user list"
  calls :: "call list"
  logged :: "log_entry list"

subsection \<open>Computations that may raise\<close>

type_synonym 'a io = "world \<Rightarrow> (exn + 'a) \<times> world"

definition io_return :: "'a \<Rightarrow> 'a io" where
  "io_return x = (\<lambda>w. (Inr x, w))"

definition io_raise :: "exn \<Rightarrow> 'a io" where
  "io_raise e = (\<lambda>w. (Inl e, w))"

definition io_bind :: "'a io \<Rightarrow> ('a \<Rightarrow> 'b io) \<Rightarrow> 'b io" where
  "io_bind m k = (\<lambda>w. case m w of (Inl e, w') \<Rightarrow> (Inl e, w') | (Inr x, w') \<Rightarrow> k x w')"

text \<open>\<^verbatim>\<open>try: m  except Exception as e: h(e)\<close>\<close>

definition io_try :: "'a io \<Rightarrow> (exn \<Rightarrow> 'a io) \<Rightarrow> 'a io" where
  "io_try m h = (\<lambda>w. case m w of (Inl e, w') \<Rightarrow> h e w' | (Inr x, w') \<Rightarrow> (Inr x, w'))"

definition io_read :: "(world \<Rightarrow> 'a) \<Rightarrow> 'a io" where
  "io_read g = (\<lambda>w. (Inr (g w), w))"

definition logger_warning :: "string \<Rightarrow> unit io" where
  "logger_warning msg = (\<lambda>w. (Inr (), w\<lparr>logged := logged w @ [LogWarning msg]\<rparr>))"

definition logger_info :: "string \<Rightarrow> unit io" where
  "logger_info msg = (\<lambda>w. (Inr (), w\<lparr>logged := logged w @ [LogInfo msg]\<rparr>))"

text \<open>\<^verbatim>\<open>logger.error(f"<msg>{str(e)}")\<close>: the entry keeps the prefix and the exception.\<close>

definition logger_error :: "string \<Rightarrow> exn \<Rightarrow> unit io" where
  "logger_error msg e = (\<lambda>w. (Inr (), w\<lparr>logged := logged w @ [LogError msg e]\<rparr>))"

subsection \<open>The tier operations\<close>

text \<open>
  Whether a call to a tier returns or raises is decided outside the program. Each
  call of the token store takes the outcome of every tier operation it may perform:
  \<open>None\<close> when the operation goes through, \<open>Some e\<close> when it raises \<open>e\<close>. An operation
  that raises leaves its tier as it was.
\<close>

record faults =
  setex_raises :: "exn option"
  redis_get_raises :: "exn option"
  redis_delete_raises :: "exn option"
  cache_set_raises :: "exn option"
  cache_get_raises :: "exn option"
  cache_delete_raises :: "exn option"

definition no_faults :: faults where
  "no_faults = \<lparr>setex_raises = None, redis_get_raises = None, redis_delete_raises = None,
                cache_set_raises = None, cache_get_raises = None, cache_delete_raises = None\<rparr>"

definition record_call :: "call \<Rightarrow> world \<Rightarrow> world" where
  "record_call c w = w\<lparr>calls := calls w @ [c]\<rparr>"

definition redis_setex :: "faults \<Rightarrow> nat \<Rightarrow> string \<Rightarrow> nat \<Rightarrow> string \<Rightarrow> unit io" where
  "redis_setex f now k ttl v =
     (\<lambda>w. case setex_raises f of
             Some e \<Rightarrow> (Inl e, record_call (RedisSetex k ttl v) w)
           | None \<Rightarrow> (Inr (), (record_call (RedisSetex k ttl v) w)\<lparr>redis := tier_set (redis w) now k ttl v\<rparr>))"

definition redis_get :: "faults \<Rightarrow> nat \<Rightarrow> string \<Rightarrow> string option io" where
  "redis_get f now k =
     (\<lambda>w. case redis_get_raises f of
             Some e \<Rightarrow> (Inl e, record_call (RedisGet k) w)
           | None \<Rightarrow> (Inr (tier_get (redis w) now k), record_call (RedisGet k) w))"

definition redis_delete :: "faults \<Rightarrow> string \<Rightarrow> unit io" where
  "redis_delete f k =
     (\<lambda>w. case redis_delete_raises f of
             Some e \<Rightarrow> (Inl e, record_call (RedisDelete k) w)
           | None \<Rightarrow> (Inr (), (record_call (RedisDelete k) w)\<lparr>redis := tier_delete (redis w) k\<rparr>))"

definition cache_set :: "faults \<Rightarrow> nat \<Rightarrow> string \<Rightarrow> string \<Rightarrow> nat \<Rightarrow> unit io" where
  "cache_set f now k v timeout =
     (\<lambda>w. case cache_set_raises f of
             Some e \<Rightarrow> (Inl e, record_call (CacheSet k v timeout) w)
           | None \<Rightarrow> (Inr (), (record_call (CacheSet k v timeout) w)\<lparr>cache := tier_set (cache w) now k timeout v\<rparr>))"

definition cache_get :: "faults \<Rightarrow> nat \<Rightarrow> string \<Rightarrow> string option io" where
  "cache_get f now k =
     (\<lambda>w. case cache_get_raises f of
             Some e \<Rightarrow> (Inl e, record_call (CacheGet k) w)
           | None \<Rightarrow> (Inr (tier_get (cache w) now k), record_call (CacheGet k) w))"

definition cache_delete :: "faults \<Rightarrow> string \<Rightarrow> unit io" where
  "cache_delete f k =
     (\<lambda>w. case cache_delete_raises f of
             Some e \<Rightarrow> (Inl e, record_call (CacheDelete k) w)
           | None \<Rightarrow> (Inr (), (record_call (CacheDelete k) w)\<lparr>cache := tier_delete (cache w) k\<rparr>))"

subsection \<open>Python's \<^verbatim>\<open>str\<close> and \<^verbatim>\<open>int\<close> on integers\<close>

definition digit_char :: "nat \<Rightarrow> char" where
  "digit_char d = ''0123456789'' ! d"

fun str_nat :: "nat \<Rightarrow> string" where
  "str_nat n = (if n < 10 then [digit_char n] else str_nat (n div 10) @ [digit_char (n mod 10)])"

declare str_nat.simps [simp del]

definition str :: "int \<Rightarrow> string" where
  "str i = (if i < 0 then CHR ''-'' # str_nat (nat (- i)) else str_nat (nat i))"

definition digit_val :: "char \<Rightarrow> nat option" where
  "digit_val c = map_of (zip ''0123456789'' [0 ..< 10]) c"

fun parse_digits :: "nat \<Rightarrow> string \<Rightarrow> nat option" where
  "parse_digits acc [] = Some acc"
| "parse_digits acc (c # cs) =
     (case digit_val c of None \<Rightarrow> None | Some d \<Rightarrow> parse_digits (10 * acc + d) cs)"

text \<open>
  \<^verbatim>\<open>int(s)\<close> on an optional sign followed by at least one ASCII digit; anything else is
  a \<^verbatim>\<open>ValueError\<close>. (Python also accepts surrounding blanks and underscores between
  digits; \<^verbatim>\<open>str\<close> produces neither.)
\<close>

definition int_of_str :: "string \<Rightarrow> int option" where
  "int_of_str s =
     (case s of
        [] \<Rightarrow> None
      | c # cs \<Rightarrow>
          if c = CHR ''-'' then (if cs = [] then None else map_option (\<lambda>n. - int n) (parse_digits 0 cs))
          else if c = CHR ''+'' then (if cs = [] then None else map_option int (parse_digits 0 cs))
          else map_option int (parse_digits 0 s))"

subsection \<open>\<^verbatim>\<open>users/redis_utils.py\<close>\<close>

text \<open>
  The module body: \<^verbatim>\<open>redis.from_url(settings.REDIS_URL)\<close> either returns a client or
  raises; only \<^verbatim>\<open>ConnectionError\<close> is caught. The argument is the outcome of that call.
\<close>

definition import_redis_utils :: "exn option \<Rightarrow> unit io" where
  "import_redis_utils from_url_raises =
     (case from_url_raises of
        None \<Rightarrow> (\<lambda>w. (Inr (), w\<lparr>redis_client := Some Redis, redis_available := True\<rparr>))
      | Some e \<Rightarrow>
          if e = ConnectionError then
            io_bind (logger_warning ''Redis connection failed. Using Django cache as fallback.'')
              (\<lambda>_. (\<lambda>w. (Inr (), w\<lparr>redis_client := None, redis_available := False\<rparr>)))
          else io_raise e)"

text \<open>Truthiness of \<^verbatim>\<open>redis_available and redis_client\<close>: a client object is truthy, \<^verbatim>\<open>None\<close> is not.\<close>

definition use_redis :: "world \<Rightarrow> bool" where
  "use_redis w = (redis_available w \<and> redis_client w \<noteq> None)"

text \<open>Truthiness of a value read from a tier: \<^verbatim>\<open>None\<close> and the empty string are falsy.\<close>

definition truthy :: "string option \<Rightarrow> bool" where
  "truthy x = (case x of None \<Rightarrow> False | Some v \<Rightarrow> v \<noteq> [])"

definition reset_key :: "string \<Rightarrow> string" where
  "reset_key token = ''password_reset:'' @ token"

text \<open>
  \<^verbatim>\<open>generate_password_reset_token(user_id)\<close>. The argument \<open>token\<close> is the value that
  \<^verbatim>\<open>secrets.token_urlsafe(32)\<close> draws in this call.
\<close>

definition generate_password_reset_token :: "faults \<Rightarrow> nat \<Rightarrow> string \<Rightarrow> int \<Rightarrow> string io" where
  "generate_password_reset_token f now token uid =
     (let key = reset_key token in
      io_bind
        (io_bind (io_read use_redis) (\<lambda>enabled.
           if enabled then
             io_try
               (io_bind (redis_setex f now key 600 (str uid)) (\<lambda>_. io_return True))
               (\<lambda>e. io_bind (logger_error ''Redis error storing token: '' e) (\<lambda>_. io_return False))
           else io_return False))
        (\<lambda>redis_success.
           io_bind
             (if \<not> redis_success then
                io_try
                  (io_bind (cache_set f now key (str uid) 600)
                     (\<lambda>_. logger_info (''Token stored in Django cache: '' @ take 6 token @ ''...'')))
                  (\<lambda>e. logger_error ''Cache error storing token: '' e)
              else io_return ())
             (\<lambda>_. io_return token)))"

text \<open>
  \<^verbatim>\<open>validate_password_reset_token(token)\<close>. Its two \<^verbatim>\<open>try\<close> blocks are \<open>redis_lookup\<close>
  (with the guard \<^verbatim>\<open>if redis_available and redis_client\<close> around it) and \<open>cache_lookup\<close>.
  A block yields \<open>Some user_id\<close> where the source returns from inside it, and \<open>None\<close>
  where control falls out of it. Values are written as UTF-8 text and decoded as UTF-8,
  so a tier holds strings.
\<close>

definition redis_lookup :: "faults \<Rightarrow> nat \<Rightarrow> string \<Rightarrow> string option io" where
  "redis_lookup f now key =
     io_bind (io_read use_redis) (\<lambda>enabled.
       if enabled then
         io_try
           (io_bind (redis_get f now key) (\<lambda>user_id_bytes.
              if truthy user_id_bytes then
                io_bind (redis_delete f key) (\<lambda>_. io_return user_id_bytes)
              else io_return None))
           (\<lambda>e. io_bind (logger_error ''Redis error validating token: '' e) (\<lambda>_. io_return None))
       else io_return None)"

definition cache_lookup :: "faults \<Rightarrow> nat \<Rightarrow> string \<Rightarrow> string option io" where
  "cache_lookup f now key =
     io_try
       (io_bind (cache_get f now key) (\<lambda>user_id.
          if truthy user_id then
            io_bind (cache_delete f key) (\<lambda>_. io_return user_id)
          else io_return None))
       (\<lambda>e. io_bind (logger_error ''Cache error validating token: '' e) (\<lambda>_. io_return None))"

definition validate_password_reset_token :: "faults \<Rightarrow> nat \<Rightarrow> string \<Rightarrow> string option io" where
  "validate_password_reset_token f now token =
     (let key = reset_key token in
      io_bind (redis_lookup f now key) (\<lambda>returned.
        case returned of
          Some user_id \<Rightarrow> io_return (Some user_id)
        | None \<Rightarrow>
            io_bind (cache_lookup f now key) (\<lambda>returned.
              case returned of
                Some user_id \<Rightarrow> io_return (Some user_id)
              | None \<Rightarrow> io_return None)))"

subsection \<open>\<^verbatim>\<open>users/serializers.py\<close>\<close>

text \<open>
  A serializer's validated data is a dictionary from field names to strings; its errors
  map a field name to a list of messages (the framework wraps the message of
  \<^verbatim>\<open>ValidationError({'new_password_confirm': 'Passwords do not match'})\<close> in a list).
  The field-level stage of \<^verbatim>\<open>is_valid()\<close> is the framework's; the views take it as the
  parameter \<open>to_internal_value\<close>.
\<close>

type_synonym fields = "string \<rightharpoonup> string"

type_synonym errors = "(string \<times> string list) list"

definition PasswordResetConfirmSerializer_validate :: "fields \<Rightarrow> errors + fields" where
  "PasswordResetConfirmSerializer_validate data =
     (if data ''new_password'' \<noteq> data ''new_password_confirm''
      then Inl [(''new_password_confirm'', [''Passwords do not match''])]
      else Inr data)"

definition PasswordResetConfirmSerializer_is_valid ::
    "(fields \<Rightarrow> errors + fields) \<Rightarrow> fields \<Rightarrow> errors + fields" where
  "PasswordResetConfirmSerializer_is_valid to_internal_value request_data =
     (case to_internal_value request_data of
        Inl errs \<Rightarrow> Inl errs
      | Inr value \<Rightarrow> PasswordResetConfirmSerializer_validate value)"

definition PasswordResetRequestSerializer_is_valid ::
    "(fields \<Rightarrow> errors + fields) \<Rightarrow> fields \<Rightarrow> errors + fields" where
  "PasswordResetRequestSerializer_is_valid to_internal_value request_data =
     to_internal_value request_data"

subsection \<open>\<^verbatim>\<open>users/views.py\<close>: the password-reset views\<close>

datatype json = JStr string | JList "string list"

record response =
  status_code :: nat
  data :: "(string \<times> json) list"

definition error_response :: "errors \<Rightarrow> response" where
  "error_response errs = \<lparr>status_code = 400, data = map (\<lambda>(k, msgs). (k, JList msgs)) errs\<rparr>"

text \<open>\<^verbatim>\<open>except User.DoesNotExist: h\<close>: one exception class is caught, the others pass.\<close>

definition io_except :: "exn \<Rightarrow> 'a io \<Rightarrow> 'a io \<Rightarrow> 'a io" where
  "io_except cls m h =
     (\<lambda>w. case m w of
             (Inl e, w') \<Rightarrow> if e = cls then h w' else (Inl e, w')
           | (Inr x, w') \<Rightarrow> (Inr x, w'))"

text \<open>\<^verbatim>\<open>d[k]\<close> raises \<^verbatim>\<open>KeyError\<close> on a missing key.\<close>

definition getitem :: "fields \<Rightarrow> string \<Rightarrow> string io" where
  "getitem d k = (case d k of None \<Rightarrow> io_raise KeyError | Some v \<Rightarrow> io_return v)"

text \<open>\<^verbatim>\<open>User.objects.get(...)\<close>: exactly one row, or an exception.\<close>

definition objects_get :: "(user \<Rightarrow> bool) \<Rightarrow> user io" where
  "objects_get p =
     (\<lambda>w. case filter p (users w) of
             [] \<Rightarrow> (Inl DoesNotExist, w)
           | [u] \<Rightarrow> (Inr u, w)
           | u # v # others \<Rightarrow> (Inl MultipleObjectsReturned, w))"

text \<open>
  \<^verbatim>\<open>User.objects.get(id=user_id)\<close> with the string that the token store returns: the
  integer key field converts the string first and raises \<^verbatim>\<open>ValueError\<close> when it is
  not a number.
\<close>

definition objects_get_id :: "string \<Rightarrow> user io" where
  "objects_get_id s =
     (case int_of_str s of
        None \<Rightarrow> io_raise ValueError
      | Some i \<Rightarrow> objects_get (\<lambda>u. ident u = i))"

definition set_password :: "user \<Rightarrow> string \<Rightarrow> user" where
  "set_password u new_password = u\<lparr>password := Hashed new_password\<rparr>"

definition save :: "user \<Rightarrow> unit io" where
  "save u = (\<lambda>w. (Inr (), w\<lparr>users := map (\<lambda>v. if ident v = ident u then u else v) (users w)\<rparr>))"

text \<open>
  \<^verbatim>\<open>PasswordResetRequestView.post\<close>. \<open>token\<close> is the random draw handed down to
  \<^verbatim>\<open>generate_password_reset_token\<close>. A \<^verbatim>\<open>try\<close> block yields \<open>Some r\<close> where the source
  returns the response \<open>r\<close> from inside it.
\<close>

definition PasswordResetRequestView_post ::
    "(fields \<Rightarrow> errors + fields) \<Rightarrow> faults \<Rightarrow> nat \<Rightarrow> string \<Rightarrow> fields \<Rightarrow> response io" where
  "PasswordResetRequestView_post to_internal_value f now token request_data =
     (case PasswordResetRequestSerializer_is_valid to_internal_value request_data of
        Inr validated_data \<Rightarrow>
          io_bind (getitem validated_data ''email'') (\<lambda>addr.
            io_bind
              (io_except DoesNotExist
                 (io_bind (objects_get (\<lambda>u. email u = addr)) (\<lambda>u.
                    io_try
                      (io_bind (generate_password_reset_token f now token (ident u)) (\<lambda>tok.
                         io_return (Some \<lparr>status_code = 200,
                           data = [(''detail'', JStr ''Password reset token generated successfully.''),
                                   (''token'', JStr tok)]\<rparr>)))
                      (\<lambda>e. io_bind (logger_error ''Password reset token generation failed: '' e) (\<lambda>_.
                         io_return (Some \<lparr>status_code = 500,
                           data = [(''detail'', JStr ''Could not generate password reset token. Please try again later.'')]\<rparr>)))))
                 (io_return None))
              (\<lambda>returned.
                 case returned of
                   Some r \<Rightarrow> io_return r
                 | None \<Rightarrow>
                     io_return \<lparr>status_code = 200,
                       data = [(''detail'', JStr ''If the email exists in our system, a password reset link will be sent.'')]\<rparr>))
      | Inl errs \<Rightarrow> io_return (error_response errs))"

text \<open>\<^verbatim>\<open>PasswordResetConfirmView.post\<close>\<close>

definition PasswordResetConfirmView_post ::
    "(fields \<Rightarrow> errors + fields) \<Rightarrow> faults \<Rightarrow> nat \<Rightarrow> fields \<Rightarrow> response io" where
  "PasswordResetConfirmView_post to_internal_value f now request_data =
     (case PasswordResetConfirmSerializer_is_valid to_internal_value request_data of
        Inr validated_data \<Rightarrow>
          io_bind (getitem validated_data ''token'') (\<lambda>token.
          io_bind (getitem validated_data ''new_password'') (\<lambda>new_password.
            io_try
              (io_bind (validate_password_reset_token f now token) (\<lambda>user_id.
                 io_bind
                   (case user_id of
                      None \<Rightarrow> io_return None
                    | Some s \<Rightarrow>
                        if s \<noteq> [] then
                          io_except DoesNotExist
                            (io_bind (objects_get_id s) (\<lambda>u.
                               io_bind (save (set_password u new_password)) (\<lambda>_.
                                 io_return (Some \<lparr>status_code = 200,
                                   data = [(''detail'', JStr ''Password reset successful. You can now log in with your new password.'')]\<rparr>))))
                            (io_return None)
                        else io_return None)
                   (\<lambda>returned.
                      case returned of
                        Some r \<Rightarrow> io_return r
                      | None \<Rightarrow>
                          io_return \<lparr>status_code = 400,
                            data = [(''detail'', JStr ''Invalid or expired token. Please request a new password reset.'')]\<rparr>)))
              (\<lambda>e. io_bind (logger_error ''Password reset confirmation failed: '' e) (\<lambda>_.
                 io_return \<lparr>status_code = 500,
                   data = [(''detail'', JStr ''An error occurred during password reset. Please try again later.'')]\<rparr>))))
      | Inl errs \<Rightarrow> io_return (error_response errs))"

subsection \<open>Histories of store calls\<close>

text \<open>
  A history is a list of calls to the token store, each with the time at which it runs
  and the outcome of its tier operations. \<open>run\<close> performs them in order.
\<close>

datatype op = Issue string int | Redeem string

type_synonym event = "nat \<times> faults \<times> op"

fun step :: "event \<Rightarrow> world \<Rightarrow> world" where
  "step (now, f, Issue token uid) w = snd (generate_password_reset_token f now token uid w)"
| "step (now, f, Redeem token) w = snd (validate_password_reset_token f now token w)"

definition run :: "event list \<Rightarrow> world \<Rightarrow> world" where
  "run evs w = fold step evs w"

fun token_of :: "event \<Rightarrow> string" where
  "token_of (now, f, Issue token uid) = token"
| "token_of (now, f, Redeem token) = token"

fun issues_of :: "string \<Rightarrow> event \<Rightarrow> bool" where
  "issues_of token (now, f, Issue t uid) = (t = token)"
| "issues_of token (now, f, Redeem t) = False"

text \<open>Whether an event is a redeem call of the token that returns a subject id.\<close>

fun redeems :: "string \<Rightarrow> event \<Rightarrow> world \<Rightarrow> bool" where
  "redeems token (now, f, Redeem t) w =
     (t = token \<and> fst (validate_password_reset_token f now t w) \<noteq> Inr None)"
| "redeems token (now, f, Issue t uid) w = False"

text \<open>The number of redeem calls of the token in a history that return a subject id.\<close>

fun redeemed :: "string \<Rightarrow> event list \<Rightarrow> world \<Rightarrow> nat" where
  "redeemed token [] w = 0"
| "redeemed token (ev # evs) w =
     (if redeems token ev w then 1 else 0) + redeemed token evs (step ev w)"

text \<open>The number of tiers in which a token's key has an entry.\<close>

definition held :: "world \<Rightarrow> string \<Rightarrow> nat" where
  "held w token =
     (if redis w (reset_key token) = None then 0 else 1) +
     (if cache w (reset_key token) = None then 0 else 1)"

text \<open>
  A redeem call is served by the primary tier when the tier is in use, its read returns
  a truthy value and its delete goes through; by the secondary tier when the read of
  the cache returns a truthy value and its delete goes through.
\<close>

definition primary_hit :: "faults \<Rightarrow> nat \<Rightarrow> string \<Rightarrow> world \<Rightarrow> bool" where
  "primary_hit f now token w =
     (use_redis w \<and> redis_get_raises f = None \<and>
      truthy (tier_get (redis w) now (reset_key token)) \<and> redis_delete_raises f = None)"

definition secondary_hit :: "faults \<Rightarrow> nat \<Rightarrow> string \<Rightarrow> world \<Rightarrow> bool" where
  "secondary_hit f now token w =
     (cache_get_raises f = None \<and>
      truthy (tier_get (cache w) now (reset_key token)) \<and> cache_delete_raises f = None)"

text \<open>The tier calls that a computation adds to the trace.\<close>

definition new_calls :: "world \<Rightarrow> world \<Rightarrow> call list" where
  "new_calls w w' = drop (length (calls w)) (calls w')"

subsection \<open>Two redeem calls sharing the stores\<close>





subsection \<open>Sample worlds\<close>

definition sample_world :: world where
  "sample_world =
     \<lparr>redis_client = Some Redis, redis_available = True, redis = Map.empty, cache = Map.empty,
      users = [\<lparr>ident = 7, email = ''ada@example.com'', password = Hashed ''old-secret'',
                full_name = ''Ada''\<rparr>],
      calls = [], logged = []\<rparr>"

text \<open>The sample world after token \<open>Zq3vT9\<close> was issued for subject 7 at time 100.\<close>

definition issued_world :: world where
  "issued_world = sample_world\<lparr>redis := [reset_key ''Zq3vT9'' \<mapsto> (''7'', 700)]\<rparr>"

definition both_writes_fail :: faults where
  "both_writes_fail =
     no_faults\<lparr>setex_raises := Some TimeoutError, cache_set_raises := Some ConnectionError\<rparr>"

definition delete_fails :: faults where
  "delete_fails = no_faults\<lparr>redis_delete_raises := Some TimeoutError\<rparr>"


definition sample_confirm :: fields where
  "sample_confirm =
     [''token'' \<mapsto> ''Zq3vT9'', ''new_password'' \<mapsto> ''new-secret'',
      ''new_password_confirm'' \<mapsto> ''new-secret'']"

text \<open>A world whose module import found no Redis: only the cache is in use.\<close>

definition cache_only_world :: world where
  "cache_only_world = sample_world\<lparr>redis_client := None, redis_available := False\<rparr>"

subsection \<open>Where the entries of the tiers come from\<close>

text \<open>
  Every entry of either tier was written by an issue call of the history: under the
  key of its token, with the decimal text of its subject id, expiring 600 seconds after
  the call.
\<close>

definition written_by :: "event list \<Rightarrow> world \<Rightarrow> bool" where
  "written_by evs w =
     (\<forall>k v e. redis w k = Some (v, e) \<or> cache w k = Some (v, e) \<longrightarrow>
        (\<exists>now f token uid. (now, f, Issue token uid) \<in> set evs \<and>
           k = reset_key token \<and> v = str uid \<and> e = now + 600))"

text \<open>The answer of the confirm view to a token that does not redeem.\<close>

definition invalid_token_response :: response where
  "invalid_token_response =
     \<lparr>status_code = 400,
      data = [(''detail'', JStr ''Invalid or expired token. Please request a new password reset.'')]\<rparr>"

text \<open>The issued world after the account of subject 7 was removed.\<close>

definition orphan_world :: world where
  "orphan_world = issued_world\<lparr>users := []\<rparr>"


section \<open>Properties of the token store\<close>

lemmas io_defs = io_return_def io_raise_def io_bind_def io_try_def io_read_def io_except_def
  logger_warning_def logger_info_def logger_error_def record_call_def
  redis_setex_def redis_get_def redis_delete_def cache_set_def cache_get_def cache_delete_def

lemmas sample_defs = sample_world_def issued_world_def both_writes_fail_def delete_fails_def
  no_faults_def use_redis_def

subsection \<open>The two lookup blocks\<close>

lemma redis_lookup_hit:
  assumes "primary_hit f now token w"
  shows "redis_lookup f now (reset_key token) w =
    (Inr (tier_get (redis w) now (reset_key token)),
     w\<lparr>calls := calls w @ [RedisGet (reset_key token), RedisDelete (reset_key token)],
       redis := tier_delete (redis w) (reset_key token)\<rparr>)"
  using assms by (simp add: redis_lookup_def io_defs primary_hit_def)

lemma redis_lookup_miss:
  assumes "\<not> primary_hit f now token w"
  shows "\<exists>cs ls. redis_lookup f now (reset_key token) w =
           (Inr None, w\<lparr>calls := calls w @ cs, logged := logged w @ ls\<rparr>) \<and>
         list_all is_redis_call cs \<and> (use_redis w \<longrightarrow> take 1 cs = [RedisGet (reset_key token)]) \<and>
         (\<not> use_redis w \<longrightarrow> cs = [])"
proof (cases "use_redis w")
  case False
  then have "redis_lookup f now (reset_key token) w = (Inr None, w\<lparr>calls := calls w @ [], logged := logged w @ []\<rparr>)"
    by (simp add: redis_lookup_def io_defs)
  with False show ?thesis
    by (intro exI [of _ "[]"]) simp
next
  case enabled: True
  show ?thesis
  proof (cases "redis_get_raises f")
    case (Some e)
    with enabled have "redis_lookup f now (reset_key token) w =
        (Inr None, w\<lparr>calls := calls w @ [RedisGet (reset_key token)],
                     logged := logged w @ [LogError ''Redis error validating token: '' e]\<rparr>)"
      by (simp add: redis_lookup_def io_defs)
    with enabled show ?thesis
      by (intro exI [of _ "[RedisGet (reset_key token)]"] exI [of _ "[LogError ''Redis error validating token: '' e]"]) simp
  next
    case None
    show ?thesis
    proof (cases "truthy (tier_get (redis w) now (reset_key token))")
      case False
      with enabled None have "redis_lookup f now (reset_key token) w =
          (Inr None, w\<lparr>calls := calls w @ [RedisGet (reset_key token)], logged := logged w @ []\<rparr>)"
        by (simp add: redis_lookup_def io_defs)
      with enabled show ?thesis
        by (intro exI [of _ "[RedisGet (reset_key token)]"] exI [of _ "[]"]) simp
    next
      case True
      with assms enabled None obtain e where e: "redis_delete_raises f = Some e"
        by (auto simp: primary_hit_def)
      with enabled None True have "redis_lookup f now (reset_key token) w =
          (Inr None, w\<lparr>calls := calls w @ [RedisGet (reset_key token), RedisDelete (reset_key token)],
                       logged := logged w @ [LogError ''Redis error validating token: '' e]\<rparr>)"
        by (simp add: redis_lookup_def io_defs)
      with enabled show ?thesis
        by (intro exI [of _ "[RedisGet (reset_key token), RedisDelete (reset_key token)]"]
              exI [of _ "[LogError ''Redis error validating token: '' e]"]) simp
    qed
  qed
qed

lemma cache_lookup_hit:
  assumes "secondary_hit f now token w"
  shows "cache_lookup f now (reset_key token) w =
    (Inr (tier_get (cache w) now (reset_key token)),
     w\<lparr>calls := calls w @ [CacheGet (reset_key token), CacheDelete (reset_key token)],
       cache := tier_delete (cache w) (reset_key token)\<rparr>)"
  using assms by (simp add: cache_lookup_def io_defs secondary_hit_def)

lemma cache_lookup_miss:
  assumes "\<not> secondary_hit f now token w"
  shows "\<exists>cs ls. cache_lookup f now (reset_key token) w =
           (Inr None, w\<lparr>calls := calls w @ cs, logged := logged w @ ls\<rparr>) \<and>
         list_all is_cache_call cs \<and> take 1 cs = [CacheGet (reset_key token)]"
proof (cases "cache_get_raises f")
  case (Some e)
  then have "cache_lookup f now (reset_key token) w =
      (Inr None, w\<lparr>calls := calls w @ [CacheGet (reset_key token)],
                   logged := logged w @ [LogError ''Cache error validating token: '' e]\<rparr>)"
    by (simp add: cache_lookup_def io_defs)
  then show ?thesis
    by (intro exI [of _ "[CacheGet (reset_key token)]"] exI [of _ "[LogError ''Cache error validating token: '' e]"]) simp
next
  case None
  show ?thesis
  proof (cases "truthy (tier_get (cache w) now (reset_key token))")
    case False
    with None have "cache_lookup f now (reset_key token) w =
        (Inr None, w\<lparr>calls := calls w @ [CacheGet (reset_key token)], logged := logged w @ []\<rparr>)"
      by (simp add: cache_lookup_def io_defs)
    then show ?thesis
      by (intro exI [of _ "[CacheGet (reset_key token)]"] exI [of _ "[]"]) simp
  next
    case True
    with assms None obtain e where e: "cache_delete_raises f = Some e"
      by (auto simp: secondary_hit_def)
    with None True have "cache_lookup f now (reset_key token) w =
        (Inr None, w\<lparr>calls := calls w @ [CacheGet (reset_key token), CacheDelete (reset_key token)],
                     logged := logged w @ [LogError ''Cache error validating token: '' e]\<rparr>)"
      by (simp add: cache_lookup_def io_defs)
    then show ?thesis
      by (intro exI [of _ "[CacheGet (reset_key token), CacheDelete (reset_key token)]"]
            exI [of _ "[LogError ''Cache error validating token: '' e]"]) simp
  qed
qed

lemma secondary_hit_trace [simp]:
  "secondary_hit f now token (w\<lparr>calls := cs, logged := ls\<rparr>) = secondary_hit f now token w"
  by (simp add: secondary_hit_def)

subsection \<open>What a redeem call returns and leaves behind\<close>

lemma truthy_Some: "truthy x \<longleftrightarrow> (\<exists>v. x = Some v \<and> v \<noteq> [])"
  by (cases x) (simp_all add: truthy_def)

lemma validate_primary:
  assumes "primary_hit f now token w"
  shows "validate_password_reset_token f now token w =
    (Inr (tier_get (redis w) now (reset_key token)),
     w\<lparr>calls := calls w @ [RedisGet (reset_key token), RedisDelete (reset_key token)],
       redis := tier_delete (redis w) (reset_key token)\<rparr>)"
proof -
  from assms obtain v where "tier_get (redis w) now (reset_key token) = Some v"
    by (auto simp: primary_hit_def truthy_Some)
  with redis_lookup_hit [OF assms] show ?thesis
    by (simp add: validate_password_reset_token_def io_bind_def io_return_def Let_def)
qed

lemma validate_secondary:
  assumes "\<not> primary_hit f now token w" and "secondary_hit f now token w"
  shows "\<exists>cs ls. validate_password_reset_token f now token w =
           (Inr (tier_get (cache w) now (reset_key token)),
            w\<lparr>calls := calls w @ cs @ [CacheGet (reset_key token), CacheDelete (reset_key token)],
              logged := logged w @ ls,
              cache := tier_delete (cache w) (reset_key token)\<rparr>) \<and>
         list_all is_redis_call cs \<and> (use_redis w \<longrightarrow> take 1 cs = [RedisGet (reset_key token)]) \<and>
         (\<not> use_redis w \<longrightarrow> cs = [])"
proof -
  from redis_lookup_miss [OF assms(1)] obtain cs ls where
    r: "redis_lookup f now (reset_key token) w =
          (Inr None, w\<lparr>calls := calls w @ cs, logged := logged w @ ls\<rparr>)"
    and cs: "list_all is_redis_call cs" "use_redis w \<longrightarrow> take 1 cs = [RedisGet (reset_key token)]"
      "\<not> use_redis w \<longrightarrow> cs = []"
    by blast
  from assms(2) have hit: "secondary_hit f now token (w\<lparr>calls := calls w @ cs, logged := logged w @ ls\<rparr>)"
    by simp
  from assms(2) obtain v where v: "tier_get (cache w) now (reset_key token) = Some v"
    by (auto simp: secondary_hit_def truthy_Some)
  have "validate_password_reset_token f now token w =
           (Inr (tier_get (cache w) now (reset_key token)),
            w\<lparr>calls := calls w @ cs @ [CacheGet (reset_key token), CacheDelete (reset_key token)],
              logged := logged w @ ls,
              cache := tier_delete (cache w) (reset_key token)\<rparr>)"
    using r v cache_lookup_hit [OF hit]
    by (simp add: validate_password_reset_token_def io_bind_def io_return_def Let_def)
  with cs show ?thesis by blast
qed

lemma validate_miss:
  assumes "\<not> primary_hit f now token w" and "\<not> secondary_hit f now token w"
  shows "\<exists>cs ls. validate_password_reset_token f now token w =
           (Inr None, w\<lparr>calls := calls w @ cs, logged := logged w @ ls\<rparr>) \<and>
         CacheGet (reset_key token) \<in> set cs \<and>
         (use_redis w \<longrightarrow> take 1 cs = [RedisGet (reset_key token)]) \<and>
         (\<not> use_redis w \<longrightarrow> list_all is_cache_call cs)"
proof -
  from redis_lookup_miss [OF assms(1)] obtain cs ls where
    r: "redis_lookup f now (reset_key token) w =
          (Inr None, w\<lparr>calls := calls w @ cs, logged := logged w @ ls\<rparr>)"
    and cs: "use_redis w \<longrightarrow> take 1 cs = [RedisGet (reset_key token)]" "\<not> use_redis w \<longrightarrow> cs = []"
    by blast
  from assms(2) have miss: "\<not> secondary_hit f now token (w\<lparr>calls := calls w @ cs, logged := logged w @ ls\<rparr>)"
    by simp
  from cache_lookup_miss [OF miss] obtain cs' ls' where
    c: "cache_lookup f now (reset_key token) (w\<lparr>calls := calls w @ cs, logged := logged w @ ls\<rparr>) =
          (Inr None, w\<lparr>calls := calls w @ cs @ cs', logged := logged w @ ls @ ls'\<rparr>)"
    and cs': "take 1 cs' = [CacheGet (reset_key token)]" "list_all is_cache_call cs'"
    by auto
  from cs'(1) have mem: "CacheGet (reset_key token) \<in> set (cs @ cs')"
    by (cases cs') auto
  from cs(1) have first: "use_redis w \<longrightarrow> take 1 (cs @ cs') = [RedisGet (reset_key token)]"
    by (cases cs) auto
  from cs(2) cs'(2) have only: "\<not> use_redis w \<longrightarrow> list_all is_cache_call (cs @ cs')"
    by simp
  have "validate_password_reset_token f now token w =
           (Inr None, w\<lparr>calls := calls w @ (cs @ cs'), logged := logged w @ (ls @ ls')\<rparr>)"
    using r c by (simp add: validate_password_reset_token_def io_bind_def io_return_def Let_def)
  with mem first only show ?thesis by blast
qed

lemma validate_cases [case_names primary secondary miss]:
  obtains
    (primary) "primary_hit f now token w"
      "validate_password_reset_token f now token w =
         (Inr (tier_get (redis w) now (reset_key token)),
          w\<lparr>calls := calls w @ [RedisGet (reset_key token), RedisDelete (reset_key token)],
            redis := tier_delete (redis w) (reset_key token)\<rparr>)"
  | (secondary) cs ls where "\<not> primary_hit f now token w" "secondary_hit f now token w"
      "validate_password_reset_token f now token w =
         (Inr (tier_get (cache w) now (reset_key token)),
          w\<lparr>calls := calls w @ cs @ [CacheGet (reset_key token), CacheDelete (reset_key token)],
            logged := logged w @ ls,
            cache := tier_delete (cache w) (reset_key token)\<rparr>)"
  | (miss) cs ls where "\<not> primary_hit f now token w" "\<not> secondary_hit f now token w"
      "validate_password_reset_token f now token w =
         (Inr None, w\<lparr>calls := calls w @ cs, logged := logged w @ ls\<rparr>)"
proof (cases "primary_hit f now token w")
  case True
  then show ?thesis using validate_primary primary by blast
next
  case no_primary: False
  show ?thesis
  proof (cases "secondary_hit f now token w")
    case True
    with no_primary validate_secondary [of f now token w] secondary show ?thesis by blast
  next
    case False
    with no_primary validate_miss [of f now token w] miss show ?thesis by blast
  qed
qed

lemma validate_result:
  "fst (validate_password_reset_token f now token w) =
     Inr (if primary_hit f now token w then tier_get (redis w) now (reset_key token)
          else if secondary_hit f now token w then tier_get (cache w) now (reset_key token)
          else None)"
  by (rule validate_cases [of f now token w]) simp_all

lemma validate_redis:
  "redis (snd (validate_password_reset_token f now token w)) =
     (if primary_hit f now token w then tier_delete (redis w) (reset_key token) else redis w)"
  by (rule validate_cases [of f now token w]) simp_all

lemma validate_cache:
  "cache (snd (validate_password_reset_token f now token w)) =
     (if \<not> primary_hit f now token w \<and> secondary_hit f now token w
      then tier_delete (cache w) (reset_key token) else cache w)"
  by (rule validate_cases [of f now token w]) simp_all

lemma validate_globals:
  "redis_client (snd (validate_password_reset_token f now token w)) = redis_client w"
  "redis_available (snd (validate_password_reset_token f now token w)) = redis_available w"
  "users (snd (validate_password_reset_token f now token w)) = users w"
  by (rule validate_cases [of f now token w]; simp)+

subsection \<open>What an issue call returns and leaves behind\<close>

lemma generate_result: "fst (generate_password_reset_token f now token uid w) = Inr token"
  by (simp add: generate_password_reset_token_def io_defs Let_def split: option.split)

lemma generate_redis:
  "redis (snd (generate_password_reset_token f now token uid w)) =
     (if use_redis w \<and> setex_raises f = None
      then tier_set (redis w) now (reset_key token) 600 (str uid) else redis w)"
  by (simp add: generate_password_reset_token_def io_defs Let_def split: option.split)

lemma generate_cache:
  "cache (snd (generate_password_reset_token f now token uid w)) =
     (if \<not> (use_redis w \<and> setex_raises f = None) \<and> cache_set_raises f = None
      then tier_set (cache w) now (reset_key token) 600 (str uid) else cache w)"
  by (simp add: generate_password_reset_token_def io_defs Let_def split: option.split)

lemma generate_trace:
  "calls (snd (generate_password_reset_token f now token uid w)) =
     calls w @
     (if use_redis w then [RedisSetex (reset_key token) 600 (str uid)] else []) @
     (if use_redis w \<and> setex_raises f = None then []
      else [CacheSet (reset_key token) (str uid) 600])"
  by (simp add: generate_password_reset_token_def io_defs Let_def split: option.split)

lemma generate_calls:
  "new_calls w (snd (generate_password_reset_token f now token uid w)) =
     (if use_redis w then [RedisSetex (reset_key token) 600 (str uid)] else []) @
     (if use_redis w \<and> setex_raises f = None then []
      else [CacheSet (reset_key token) (str uid) 600])"
  by (simp add: generate_password_reset_token_def io_defs Let_def new_calls_def split: option.split)

lemma generate_globals:
  "redis_client (snd (generate_password_reset_token f now token uid w)) = redis_client w"
  "redis_available (snd (generate_password_reset_token f now token uid w)) = redis_available w"
  "users (snd (generate_password_reset_token f now token uid w)) = users w"
  by (simp_all add: generate_password_reset_token_def io_defs Let_def split: option.split)



subsection \<open>Issue never fails its caller\<close>

text \<open>
  Claim C4. Whatever the tiers do, \<^verbatim>\<open>generate_password_reset_token\<close> returns the token
  it generated: also when the primary write raises and when both writes raise. When the
  primary write raises, the call goes on to write to the cache under the same key, with
  the same value and the same time to live of 600 seconds. No outcome of a tier
  operation makes the call raise.
\<close>

theorem issue_always_returns_token:
  "fst (generate_password_reset_token f now token uid w) = Inr token \<and>
   (use_redis w \<and> setex_raises f \<noteq> None \<longrightarrow>
      new_calls w (snd (generate_password_reset_token f now token uid w)) =
        [RedisSetex (reset_key token) 600 (str uid), CacheSet (reset_key token) (str uid) 600])"
  by (simp add: generate_result generate_calls)

theorem issue_always_returns_token_witness:
  "use_redis sample_world \<and> setex_raises both_writes_fail \<noteq> None \<and>
   fst (generate_password_reset_token both_writes_fail 100 ''Zq3vT9'' 7 sample_world) = Inr ''Zq3vT9'' \<and>
   new_calls sample_world (snd (generate_password_reset_token both_writes_fail 100 ''Zq3vT9'' 7 sample_world)) =
     [RedisSetex (reset_key ''Zq3vT9'') 600 (str 7), CacheSet (reset_key ''Zq3vT9'') (str 7) 600]"
  using issue_always_returns_token [of both_writes_fail 100 "''Zq3vT9''" 7 sample_world]
  by (simp add: sample_defs)

subsection \<open>Tier failures stay inside the token store\<close>





subsection \<open>The order in which a redeem call consults the tiers\<close>

text \<open>
  Claim C3, as it stands, fails when the primary tier holds the token and its delete
  raises: the call then goes on to the cache and returns none, and the entry stays in
  the primary tier.
\<close>

theorem redeem_primary_delete_fails_counterexample:
  "use_redis issued_world \<and>
   redis_get_raises delete_fails = None \<and>
   tier_get (redis issued_world) 200 (reset_key ''Zq3vT9'') = Some ''7'' \<and>
   fst (validate_password_reset_token delete_fails 200 ''Zq3vT9'' issued_world) = Inr None \<and>
   redis (snd (validate_password_reset_token delete_fails 200 ''Zq3vT9'' issued_world)) (reset_key ''Zq3vT9'')
     = Some (''7'', 700) \<and>
   calls (snd (validate_password_reset_token delete_fails 200 ''Zq3vT9'' issued_world)) =
     [RedisGet (reset_key ''Zq3vT9''), RedisDelete (reset_key ''Zq3vT9''), CacheGet (reset_key ''Zq3vT9'')]"
  by (simp add: validate_password_reset_token_def redis_lookup_def cache_lookup_def io_defs
      sample_defs tier_get_def truthy_def Let_def)

text \<open>
  Claim C3, amended. A redeem call consults the primary tier first when that tier is in
  use. If the token is found there and the delete goes through, the entry is deleted,
  the stored subject id is returned and the cache is not consulted. In every other case
  (the primary tier is not in use, its read raises, it has no live entry, or its delete
  raises) the primary tier is left as it was and the cache is consulted: a live entry
  there whose delete goes through is deleted and its subject id returned; otherwise the
  result is none and the cache is left as it was.
\<close>

theorem redeem_tier_order:
  "(let k = reset_key token; out = validate_password_reset_token f now token w in
    (primary_hit f now token w \<longrightarrow>
       fst out = Inr (tier_get (redis w) now k) \<and> truthy (tier_get (redis w) now k) \<and>
       redis (snd out) = tier_delete (redis w) k \<and> cache (snd out) = cache w \<and>
       new_calls w (snd out) = [RedisGet k, RedisDelete k]) \<and>
    (\<not> primary_hit f now token w \<longrightarrow>
       (use_redis w \<longrightarrow> take 1 (new_calls w (snd out)) = [RedisGet k]) \<and>
       CacheGet k \<in> set (new_calls w (snd out)) \<and>
       redis (snd out) = redis w \<and>
       (secondary_hit f now token w \<longrightarrow>
          fst out = Inr (tier_get (cache w) now k) \<and> truthy (tier_get (cache w) now k) \<and>
          cache (snd out) = tier_delete (cache w) k) \<and>
       (\<not> secondary_hit f now token w \<longrightarrow>
          fst out = Inr None \<and> cache (snd out) = cache w)))"
proof (cases rule: validate_cases [of f now token w])
  case primary
  then show ?thesis
    by (simp add: Let_def new_calls_def) (simp add: primary_hit_def)
next
  case (secondary cs ls)
  from validate_secondary [OF secondary(1,2)] obtain cs' ls' where
    eq: "validate_password_reset_token f now token w =
           (Inr (tier_get (cache w) now (reset_key token)),
            w\<lparr>calls := calls w @ cs' @ [CacheGet (reset_key token), CacheDelete (reset_key token)],
              logged := logged w @ ls',
              cache := tier_delete (cache w) (reset_key token)\<rparr>)"
    and first: "use_redis w \<longrightarrow> take 1 cs' = [RedisGet (reset_key token)]"
    by blast
  from first have "use_redis w \<longrightarrow>
      take 1 (cs' @ [CacheGet (reset_key token), CacheDelete (reset_key token)]) = [RedisGet (reset_key token)]"
    by (cases cs') auto
  with secondary(1,2) eq show ?thesis
    by (simp add: Let_def new_calls_def) (simp add: secondary_hit_def)
next
  case (miss cs ls)
  from validate_miss [OF miss(1,2)] obtain cs' ls' where
    eq: "validate_password_reset_token f now token w =
           (Inr None, w\<lparr>calls := calls w @ cs', logged := logged w @ ls'\<rparr>)"
    and mem: "CacheGet (reset_key token) \<in> set cs'"
    and first: "use_redis w \<longrightarrow> take 1 cs' = [RedisGet (reset_key token)]"
    by blast
  with miss(1,2) show ?thesis
    by (simp add: Let_def new_calls_def)
qed

theorem redeem_tier_order_witness:
  "primary_hit no_faults 200 ''Zq3vT9'' issued_world \<and>
   fst (validate_password_reset_token no_faults 200 ''Zq3vT9'' issued_world) = Inr (Some ''7'') \<and>
   new_calls issued_world (snd (validate_password_reset_token no_faults 200 ''Zq3vT9'' issued_world)) =
     [RedisGet (reset_key ''Zq3vT9''), RedisDelete (reset_key ''Zq3vT9'')] \<and>
   \<not> primary_hit delete_fails 200 ''Zq3vT9'' issued_world \<and>
   \<not> secondary_hit delete_fails 200 ''Zq3vT9'' issued_world \<and>
   use_redis issued_world \<and>
   fst (validate_password_reset_token delete_fails 200 ''Zq3vT9'' issued_world) = Inr None \<and>
   CacheGet (reset_key ''Zq3vT9'')
     \<in> set (new_calls issued_world (snd (validate_password_reset_token delete_fails 200 ''Zq3vT9'' issued_world)))"
  using redeem_tier_order [of "''Zq3vT9''" no_faults 200 issued_world]
    redeem_tier_order [of "''Zq3vT9''" delete_fails 200 issued_world]
  by (simp add: Let_def primary_hit_def secondary_hit_def sample_defs tier_get_def truthy_def)



section \<open>Properties of the reset flow\<close>

subsection \<open>A confirmation whose passwords differ never reaches the store\<close>



subsection \<open>The two answers to a reset request\<close>

lemma request_known_email:
  assumes "to_internal_value request_data = Inr d" and "d ''email'' = Some addr"
    and "filter (\<lambda>u. email u = addr) (users w) = [u]"
  shows "fst (PasswordResetRequestView_post to_internal_value f now token request_data w) =
           Inr \<lparr>status_code = 200,
                data = [(''detail'', JStr ''Password reset token generated successfully.''),
                        (''token'', JStr token)]\<rparr>"
proof -
  obtain w' where "generate_password_reset_token f now token (ident u) w = (Inr token, w')"
    using generate_result [of f now token "ident u" w]
    by (cases "generate_password_reset_token f now token (ident u) w") simp
  with assms show ?thesis
    by (simp add: PasswordResetRequestView_post_def PasswordResetRequestSerializer_is_valid_def
        getitem_def objects_get_def io_return_def io_bind_def io_try_def io_except_def)
qed

lemma request_unknown_email:
  assumes "to_internal_value request_data = Inr d" and "d ''email'' = Some addr"
    and "filter (\<lambda>u. email u = addr) (users w) = []"
  shows "PasswordResetRequestView_post to_internal_value f now token request_data w =
           (Inr \<lparr>status_code = 200,
                 data = [(''detail'', JStr ''If the email exists in our system, a password reset link will be sent.'')]\<rparr>,
            w)"
  using assms
  by (simp add: PasswordResetRequestView_post_def PasswordResetRequestSerializer_is_valid_def
      getitem_def objects_get_def io_return_def io_bind_def io_try_def io_except_def)

text \<open>
  Claim C2, as it stands, fails: the answer for an email of the user table and the
  answer for an unknown email have the same status but different \<^verbatim>\<open>detail\<close> texts.
\<close>

theorem reset_request_detail_counterexample:
  "fst (PasswordResetRequestView_post Inr no_faults 100 ''Zq3vT9'' [''email'' \<mapsto> ''ada@example.com''] sample_world) =
     Inr \<lparr>status_code = 200,
          data = [(''detail'', JStr ''Password reset token generated successfully.''),
                  (''token'', JStr ''Zq3vT9'')]\<rparr> \<and>
   fst (PasswordResetRequestView_post Inr no_faults 100 ''Zq3vT9'' [''email'' \<mapsto> ''bob@example.com''] sample_world) =
     Inr \<lparr>status_code = 200,
          data = [(''detail'', JStr ''If the email exists in our system, a password reset link will be sent.'')]\<rparr> \<and>
   JStr ''Password reset token generated successfully.'' \<noteq>
     JStr ''If the email exists in our system, a password reset link will be sent.''"
proof -
  have known: "filter (\<lambda>u. email u = ''ada@example.com'') (users sample_world) =
      [\<lparr>ident = 7, email = ''ada@example.com'', password = Hashed ''old-secret'', full_name = ''Ada''\<rparr>]"
    by (simp add: sample_world_def)
  have unknown: "filter (\<lambda>u. email u = ''bob@example.com'') (users sample_world) = []"
    by (simp add: sample_world_def)
  show ?thesis
    using known unknown
      request_known_email [where to_internal_value = Inr and request_data = "[''email'' \<mapsto> ''ada@example.com'']"
        and d = "[''email'' \<mapsto> ''ada@example.com'']" and addr = "''ada@example.com''"
        and w = sample_world and f = no_faults and now = 100 and token = "''Zq3vT9''"]
      request_unknown_email [where to_internal_value = Inr and request_data = "[''email'' \<mapsto> ''bob@example.com'']"
        and d = "[''email'' \<mapsto> ''bob@example.com'']" and addr = "''bob@example.com''"
        and w = sample_world and f = no_faults and now = 100 and token = "''Zq3vT9''"]
    by simp
qed

text \<open>
  Claim C2, amended. For a request with an email that one user of the table has and a
  request with an email that no user has, both answers have status 200 and both carry a
  \<^verbatim>\<open>detail\<close> field; the \<^verbatim>\<open>detail\<close> of the first is
  \<^verbatim>\<open>Password reset token generated successfully.\<close>, that of the second is
  \<^verbatim>\<open>If the email exists in our system, a password reset link will be sent.\<close>, and the
  \<^verbatim>\<open>token\<close> field is present in the first answer only.
\<close>

theorem reset_request_same_status:
  assumes "to_internal_value known_request = Inr d1" and "d1 ''email'' = Some known"
    and "filter (\<lambda>u. email u = known) (users w) = [u]"
    and "to_internal_value unknown_request = Inr d2" and "d2 ''email'' = Some unknown"
    and "filter (\<lambda>u. email u = unknown) (users w) = []"
  shows "\<exists>r1 r2.
           fst (PasswordResetRequestView_post to_internal_value f now token known_request w) = Inr r1 \<and>
           fst (PasswordResetRequestView_post to_internal_value f' now' token' unknown_request w) = Inr r2 \<and>
           status_code r1 = 200 \<and> status_code r2 = 200 \<and>
           map_of (data r1) ''detail'' = Some (JStr ''Password reset token generated successfully.'') \<and>
           map_of (data r2) ''detail'' =
             Some (JStr ''If the email exists in our system, a password reset link will be sent.'') \<and>
           map_of (data r1) ''token'' = Some (JStr token) \<and>
           map_of (data r2) ''token'' = None"
  using request_known_email [where to_internal_value = to_internal_value and request_data = known_request
      and d = d1 and addr = known and w = w and u = u and f = f and now = now and token = token]
    request_unknown_email [where to_internal_value = to_internal_value and request_data = unknown_request
      and d = d2 and addr = unknown and w = w and f = f' and now = now' and token = token']
    assms
  by simp

theorem reset_request_same_status_witness:
  "\<exists>r1 r2.
     fst (PasswordResetRequestView_post Inr no_faults 100 ''Zq3vT9'' [''email'' \<mapsto> ''ada@example.com''] sample_world) = Inr r1 \<and>
     fst (PasswordResetRequestView_post Inr no_faults 100 ''Zq3vT9'' [''email'' \<mapsto> ''bob@example.com''] sample_world) = Inr r2 \<and>
     status_code r1 = 200 \<and> status_code r2 = 200 \<and>
     map_of (data r1) ''detail'' = Some (JStr ''Password reset token generated successfully.'') \<and>
     map_of (data r2) ''detail'' =
       Some (JStr ''If the email exists in our system, a password reset link will be sent.'') \<and>
     map_of (data r1) ''token'' = Some (JStr ''Zq3vT9'') \<and>
     map_of (data r2) ''token'' = None"
proof -
  have known: "filter (\<lambda>u. email u = ''ada@example.com'') (users sample_world) =
      [\<lparr>ident = 7, email = ''ada@example.com'', password = Hashed ''old-secret'', full_name = ''Ada''\<rparr>]"
    by (simp add: sample_world_def)
  have unknown: "filter (\<lambda>u. email u = ''bob@example.com'') (users sample_world) = []"
    by (simp add: sample_world_def)
  show ?thesis
    using known unknown
      reset_request_same_status [where to_internal_value = Inr
        and known_request = "[''email'' \<mapsto> ''ada@example.com'']"
        and ?d1.0 = "[''email'' \<mapsto> ''ada@example.com'']" and known = "''ada@example.com''"
        and unknown_request = "[''email'' \<mapsto> ''bob@example.com'']"
        and ?d2.0 = "[''email'' \<mapsto> ''bob@example.com'']" and unknown = "''bob@example.com''"
        and w = sample_world and f = no_faults and f' = no_faults and now = 100 and now' = 100
        and token = "''Zq3vT9''" and token' = "''Zq3vT9''"]
    by simp
qed



subsection \<open>Histories\<close>

lemma run_Nil [simp]: "run [] w = w"
  by (simp add: run_def)

lemma run_Cons [simp]: "run (ev # evs) w = run evs (step ev w)"
  by (simp add: run_def)

lemma run_append [simp]: "run (evs @ evs') w = run evs' (run evs w)"
  by (simp add: run_def)

lemma step_globals:
  "redis_client (step ev w) = redis_client w"
  "redis_available (step ev w) = redis_available w"
  "users (step ev w) = users w"
  by (cases ev rule: token_of.cases; simp add: generate_globals validate_globals)+

lemma use_redis_step [simp]: "use_redis (step ev w) = use_redis w"
  by (simp add: use_redis_def step_globals)

lemma run_globals:
  "redis_client (run evs w) = redis_client w"
  "redis_available (run evs w) = redis_available w"
  "users (run evs w) = users w"
  by (induction evs arbitrary: w; simp add: step_globals)+

lemma use_redis_run [simp]: "use_redis (run evs w) = use_redis w"
  by (simp add: use_redis_def run_globals)

lemma validate_cache_only:
  assumes "\<not> use_redis w"
  shows "\<exists>cs. calls (snd (validate_password_reset_token f now token w)) = calls w @ cs \<and>
              list_all is_cache_call cs"
proof -
  from assms have no_primary: "\<not> primary_hit f now token w"
    by (simp add: primary_hit_def)
  show ?thesis
  proof (cases "secondary_hit f now token w")
    case True
    from validate_secondary [OF no_primary True] assms show ?thesis
      by auto
  next
    case False
    from validate_miss [OF no_primary False] assms show ?thesis
      by auto
  qed
qed

lemma step_cache_only:
  assumes "\<not> use_redis w"
  shows "\<exists>cs. calls (step ev w) = calls w @ cs \<and> list_all is_cache_call cs"
proof (cases ev rule: token_of.cases)
  case (1 now f token uid)
  with assms show ?thesis
    by (simp add: generate_trace)
next
  case (2 now f token)
  with validate_cache_only [OF assms] show ?thesis
    by simp
qed

lemma step_redis_unused:
  assumes "\<not> use_redis w"
  shows "redis (step ev w) = redis w"
  using assms
  by (cases ev rule: token_of.cases) (simp_all add: generate_redis validate_redis primary_hit_def)

lemma run_cache_only:
  assumes "\<not> use_redis w"
  shows "\<exists>cs. calls (run evs w) = calls w @ cs \<and> list_all is_cache_call cs"
  using assms
proof (induction evs arbitrary: w)
  case Nil
  then show ?case by simp
next
  case (Cons ev evs)
  from step_cache_only [OF Cons.prems] obtain cs where
    cs: "calls (step ev w) = calls w @ cs" "list_all is_cache_call cs"
    by blast
  from Cons.prems have "\<not> use_redis (step ev w)" by simp
  from Cons.IH [OF this] obtain cs' where
    "calls (run evs (step ev w)) = calls (step ev w) @ cs'" "list_all is_cache_call cs'"
    by blast
  with cs have "calls (run (ev # evs) w) = calls w @ (cs @ cs') \<and> list_all is_cache_call (cs @ cs')"
    by simp
  then show ?case by blast
qed

lemma run_redis_unused:
  assumes "\<not> use_redis w"
  shows "redis (run evs w) = redis w"
  using assms
  by (induction evs arbitrary: w) (simp_all add: step_redis_unused)



subsection \<open>The availability flag is set once, by the module import\<close>

text \<open>
  Claim C10. The module import sets \<^verbatim>\<open>redis_available\<close> (and \<^verbatim>\<open>redis_client\<close>), and no
  call of the token store changes them. When the import met a \<^verbatim>\<open>ConnectionError\<close>, the
  flag is false and stays false through every later history of issue and redeem calls,
  whatever the tiers would do (in particular when no Redis operation would raise): all
  tier calls of such a history are cache calls and the primary tier is never touched.
  When the flag is true after the import, it stays true, and every later issue call
  starts with the \<^verbatim>\<open>setex\<close> on the primary tier.
\<close>

theorem availability_fixed_at_import:
  "(\<forall>evs. redis_available (run evs w) = redis_available w \<and>
          redis_client (run evs w) = redis_client w) \<and>
   (import_redis_utils (Some ConnectionError) w0 = (Inr (), w) \<longrightarrow>
      \<not> redis_available w \<and>
      (\<forall>evs. list_all is_cache_call (new_calls w (run evs w)) \<and> redis (run evs w) = redis w)) \<and>
   (import_redis_utils outcome w0 = (Inr (), w) \<and> redis_available w \<longrightarrow>
      (\<forall>evs f now token uid.
         take 1 (new_calls (run evs w) (snd (generate_password_reset_token f now token uid (run evs w)))) =
           [RedisSetex (reset_key token) 600 (str uid)]))"
proof (intro conjI impI allI)
  fix evs
  show "redis_available (run evs w) = redis_available w" "redis_client (run evs w) = redis_client w"
    by (simp_all add: run_globals)
next
  assume "import_redis_utils (Some ConnectionError) w0 = (Inr (), w)"
  then show "\<not> redis_available w"
    by (auto simp add: import_redis_utils_def io_defs)
next
  fix evs
  assume "import_redis_utils (Some ConnectionError) w0 = (Inr (), w)"
  then have off: "\<not> use_redis w"
    by (auto simp add: import_redis_utils_def io_defs use_redis_def)
  from run_cache_only [OF this, of evs] show "list_all is_cache_call (new_calls w (run evs w))"
    by (auto simp add: new_calls_def)
  from off show "redis (run evs w) = redis w"
    by (rule run_redis_unused)
next
  fix evs f now token uid
  assume "import_redis_utils outcome w0 = (Inr (), w) \<and> redis_available w"
  then have "use_redis w"
    by (cases outcome) (auto simp add: import_redis_utils_def io_defs use_redis_def split: if_splits)
  then show "take 1 (new_calls (run evs w) (snd (generate_password_reset_token f now token uid (run evs w)))) =
           [RedisSetex (reset_key token) 600 (str uid)]"
    by (simp add: generate_calls)
qed

theorem availability_fixed_at_import_witness:
  "import_redis_utils (Some ConnectionError) (sample_world\<lparr>logged := []\<rparr>) =
     (Inr (), cache_only_world\<lparr>logged := [LogWarning ''Redis connection failed. Using Django cache as fallback.'']\<rparr>) \<and>
   \<not> redis_available (cache_only_world\<lparr>logged := [LogWarning ''Redis connection failed. Using Django cache as fallback.'']\<rparr>) \<and>
   list_all is_cache_call
     (new_calls (cache_only_world\<lparr>logged := [LogWarning ''Redis connection failed. Using Django cache as fallback.'']\<rparr>)
        (run [(100, no_faults, Issue ''Zq3vT9'' 7), (200, no_faults, Redeem ''Zq3vT9'')]
           (cache_only_world\<lparr>logged := [LogWarning ''Redis connection failed. Using Django cache as fallback.'']\<rparr>))) \<and>
   import_redis_utils None cache_only_world = (Inr (), sample_world) \<and>
   redis_available sample_world \<and>
   take 1 (new_calls (run [(200, no_faults, Redeem ''Zq3vT9'')] sample_world)
             (snd (generate_password_reset_token both_writes_fail 300 ''Zq3vT9'' 7
                     (run [(200, no_faults, Redeem ''Zq3vT9'')] sample_world)))) =
     [RedisSetex (reset_key ''Zq3vT9'') 600 (str 7)]"
proof -
  have failed: "import_redis_utils (Some ConnectionError) (sample_world\<lparr>logged := []\<rparr>) =
     (Inr (), cache_only_world\<lparr>logged := [LogWarning ''Redis connection failed. Using Django cache as fallback.'']\<rparr>)"
    by (simp add: import_redis_utils_def io_defs cache_only_world_def sample_world_def)
  have connected: "import_redis_utils None cache_only_world = (Inr (), sample_world)"
    by (simp add: import_redis_utils_def cache_only_world_def sample_world_def)
  have flag: "redis_available sample_world"
    by (simp add: sample_world_def)
  from failed connected flag
    availability_fixed_at_import [of
      "cache_only_world\<lparr>logged := [LogWarning ''Redis connection failed. Using Django cache as fallback.'']\<rparr>"
      "sample_world\<lparr>logged := []\<rparr>" "Some ConnectionError"]
    availability_fixed_at_import [of sample_world cache_only_world None]
  show ?thesis
    by blast
qed



subsection \<open>Decimal text of a subject id\<close>

lemma str_nat_nonempty: "str_nat n \<noteq> []"
  by (subst str_nat.simps) simp


lemma digit_val_digit_char: "d < 10 \<Longrightarrow> digit_val (digit_char d) = Some d"
proof -
  assume "d < 10"
  then have "d \<in> {0, 1, 2, 3, 4, 5, 6, 7, 8, 9}" by auto
  then show ?thesis
    by (auto simp: digit_val_def digit_char_def upt_conv_Cons)
qed

lemma digit_char_not_sign: "d < 10 \<Longrightarrow> digit_char d \<noteq> CHR ''-'' \<and> digit_char d \<noteq> CHR ''+''"
proof -
  assume "d < 10"
  then have "d \<in> {0, 1, 2, 3, 4, 5, 6, 7, 8, 9}" by auto
  then show ?thesis
    by (auto simp: digit_char_def)
qed

lemma parse_digits_snoc:
  "parse_digits acc (cs @ [c]) =
     (case parse_digits acc cs of
        None \<Rightarrow> None
      | Some a \<Rightarrow> (case digit_val c of None \<Rightarrow> None | Some d \<Rightarrow> Some (10 * a + d)))"
  by (induction cs arbitrary: acc) (auto split: option.splits)

lemma parse_digits_str_nat: "parse_digits 0 (str_nat n) = Some n"
proof (induction n rule: str_nat.induct)
  case (1 n)
  show ?case
  proof (cases "n < 10")
    case True
    then show ?thesis
      by (subst str_nat.simps) (simp add: digit_val_digit_char)
  next
    case False
    with 1 have "parse_digits 0 (str_nat (n div 10)) = Some (n div 10)" by simp
    with False show ?thesis
      by (subst str_nat.simps) (simp add: parse_digits_snoc digit_val_digit_char)
  qed
qed

lemma str_nat_first: "\<exists>c cs. str_nat n = c # cs \<and> c \<noteq> CHR ''-'' \<and> c \<noteq> CHR ''+''"
proof (induction n rule: str_nat.induct)
  case (1 n)
  show ?case
  proof (cases "n < 10")
    case True
    then show ?thesis
      by (subst str_nat.simps) (simp add: digit_char_not_sign)
  next
    case False
    with 1 obtain c cs where "str_nat (n div 10) = c # cs" "c \<noteq> CHR ''-''" "c \<noteq> CHR ''+''"
      by blast
    with False show ?thesis
      by (subst str_nat.simps) simp
  qed
qed

lemma int_of_str_unsigned:
  assumes "c \<noteq> CHR ''-''" and "c \<noteq> CHR ''+''"
  shows "int_of_str (c # cs) = map_option int (parse_digits 0 (c # cs))"
  using assms unfolding int_of_str_def by (simp only: list.case if_False)

lemma int_of_str_negative:
  assumes "cs \<noteq> []"
  shows "int_of_str (CHR ''-'' # cs) = map_option (\<lambda>n. - int n) (parse_digits 0 cs)"
  using assms unfolding int_of_str_def by (simp only: list.case if_True if_False refl)

lemma int_of_str_str: "int_of_str (str i) = Some i"
proof (cases "i < 0")
  case True
  then have "str i = CHR ''-'' # str_nat (nat (- i))"
    by (simp add: str_def)
  with True show ?thesis
    by (simp only: int_of_str_negative [OF str_nat_nonempty] parse_digits_str_nat) simp
next
  case False
  obtain c cs where first: "str_nat (nat i) = c # cs" "c \<noteq> CHR ''-''" "c \<noteq> CHR ''+''"
    using str_nat_first by blast
  have "parse_digits 0 (c # cs) = Some (nat i)"
    using parse_digits_str_nat [of "nat i"] first(1) by (simp only:)
  then have "int_of_str (c # cs) = Some (int (nat i))"
    by (simp only: int_of_str_unsigned [OF first(2,3)] option.map)
  moreover from False have "str i = c # cs"
    by (simp only: str_def first(1) if_False)
  ultimately show ?thesis
    using False by simp
qed

lemma str_inject:
  assumes "str i = str j"
  shows "i = j"
proof -
  have "Some i = int_of_str (str i)"
    by (simp only: int_of_str_str)
  also have "\<dots> = int_of_str (str j)"
    by (simp only: assms)
  also have "\<dots> = Some j"
    by (simp only: int_of_str_str)
  finally show ?thesis by simp
qed

subsection \<open>Which entries a call touches\<close>

lemma reset_key_inject [simp]: "reset_key a = reset_key b \<longleftrightarrow> a = b"
  by (simp add: reset_key_def)

lemma step_frame:
  assumes "token_of ev \<noteq> token"
  shows "redis (step ev w) (reset_key token) = redis w (reset_key token)"
    and "cache (step ev w) (reset_key token) = cache w (reset_key token)"
  using assms
  by (cases ev rule: token_of.cases;
      simp add: generate_redis generate_cache validate_redis validate_cache tier_set_def tier_delete_def)+


lemma held_eq:
  assumes "redis w' (reset_key token) = redis w (reset_key token)"
    and "cache w' (reset_key token) = cache w (reset_key token)"
  shows "held w' token = held w token"
  using assms by (simp add: held_def)

lemma hit_needs_entry:
  "primary_hit f now token w \<Longrightarrow> redis w (reset_key token) \<noteq> None"
  "secondary_hit f now token w \<Longrightarrow> cache w (reset_key token) \<noteq> None"
  by (auto simp add: primary_hit_def secondary_hit_def truthy_def tier_get_def split: option.splits)

lemma validate_absent:
  assumes "held w token = 0"
  shows "fst (validate_password_reset_token f now token w) = Inr None"
    and "held (snd (validate_password_reset_token f now token w)) token = 0"
proof -
  from assms have "redis w (reset_key token) = None" "cache w (reset_key token) = None"
    by (simp_all add: held_def split: if_splits)
  with hit_needs_entry [of f now token w]
  have miss: "\<not> primary_hit f now token w" "\<not> secondary_hit f now token w"
    by auto
  then show "fst (validate_password_reset_token f now token w) = Inr None"
    by (simp add: validate_result)
  from miss assms show "held (snd (validate_password_reset_token f now token w)) token = 0"
    by (simp add: held_def validate_redis validate_cache)
qed

lemma validate_held_some:
  assumes "fst (validate_password_reset_token f now token w) \<noteq> Inr None"
  shows "held (snd (validate_password_reset_token f now token w)) token + 1 = held w token"
proof (cases "primary_hit f now token w")
  case True
  with hit_needs_entry(1) [OF True] show ?thesis
    by (simp add: held_def validate_redis validate_cache tier_delete_def)
next
  case False
  with assms have hit: "secondary_hit f now token w"
    by (simp add: validate_result split: if_splits)
  with False hit_needs_entry(2) [OF hit] show ?thesis
    by (simp add: held_def validate_redis validate_cache tier_delete_def)
qed

lemma validate_held_none:
  assumes "fst (validate_password_reset_token f now token w) = Inr None"
  shows "held (snd (validate_password_reset_token f now token w)) token = held w token"
proof -
  have "\<not> primary_hit f now token w"
  proof
    assume hit: "primary_hit f now token w"
    then have "truthy (tier_get (redis w) now (reset_key token))"
      by (simp add: primary_hit_def)
    with assms hit show False
      by (simp add: validate_result truthy_def)
  qed
  moreover have "\<not> secondary_hit f now token w"
  proof
    assume hit: "secondary_hit f now token w"
    then have "truthy (tier_get (cache w) now (reset_key token))"
      by (simp add: secondary_hit_def)
    with assms hit \<open>\<not> primary_hit f now token w\<close> show False
      by (simp add: validate_result truthy_def)
  qed
  ultimately show ?thesis
    by (simp add: held_def validate_redis validate_cache)
qed

lemma generate_held: "held (snd (generate_password_reset_token f now token uid w)) token \<le> held w token + 1"
  by (simp add: held_def generate_redis generate_cache tier_set_def)

lemma step_held:
  "(if redeems token ev w then 1 else 0) + held (step ev w) token
     \<le> held w token + (if issues_of token ev then 1 else 0)"
proof (cases ev rule: token_of.cases)
  case (1 now f t uid)
  show ?thesis
  proof (cases "t = token")
    case True
    with 1 generate_held [of f now token uid w] show ?thesis by simp
  next
    case False
    with 1 have "token_of ev \<noteq> token" by simp
    from step_frame [OF this] have "held (step ev w) token = held w token"
      by (rule held_eq)
    with 1 False show ?thesis by simp
  qed
next
  case (2 now f t)
  show ?thesis
  proof (cases "t = token")
    case True
    with 2 validate_held_some [of f now token w] validate_held_none [of f now token w]
    show ?thesis by (cases "fst (validate_password_reset_token f now token w) = Inr None") simp_all
  next
    case False
    with 2 have "token_of ev \<noteq> token" by simp
    from step_frame [OF this] have "held (step ev w) token = held w token"
      by (rule held_eq)
    with 2 False show ?thesis by simp
  qed
qed

lemma redeemed_bound:
  "redeemed token evs w + held (run evs w) token \<le> held w token + length (filter (issues_of token) evs)"
proof (induction evs arbitrary: w)
  case Nil
  show ?case by simp
next
  case (Cons ev evs)
  from Cons.IH [of "step ev w"] step_held [of token ev w] show ?case
    by (simp split: if_splits)
qed


subsection \<open>Every entry was written by an issue call\<close>

lemma step_entry:
  assumes "redis (step ev w) k = Some (v, e) \<or> cache (step ev w) k = Some (v, e)"
  shows "redis w k = Some (v, e) \<or> cache w k = Some (v, e) \<or>
         (\<exists>now f token uid. ev = (now, f, Issue token uid) \<and> k = reset_key token \<and>
            v = str uid \<and> e = now + 600)"
proof (cases ev rule: token_of.cases)
  case (1 now f token uid)
  with assms show ?thesis
    by (auto simp add: generate_redis generate_cache tier_set_def split: if_splits)
next
  case (2 now f token)
  with assms show ?thesis
    by (auto simp add: validate_redis validate_cache tier_delete_def split: if_splits)
qed

lemma written_by_step:
  assumes "written_by evs w"
  shows "written_by (evs @ [ev]) (step ev w)"
  unfolding written_by_def
proof (intro allI impI)
  fix k v e
  assume "redis (step ev w) k = Some (v, e) \<or> cache (step ev w) k = Some (v, e)"
  from step_entry [OF this] consider
      (old) "redis w k = Some (v, e) \<or> cache w k = Some (v, e)"
    | (new) now f token uid where "ev = (now, f, Issue token uid)" "k = reset_key token"
        "v = str uid" "e = now + 600"
    by blast
  then show "\<exists>now f token uid. (now, f, Issue token uid) \<in> set (evs @ [ev]) \<and>
      k = reset_key token \<and> v = str uid \<and> e = now + 600"
  proof cases
    case old
    with assms obtain now f token uid where "(now, f, Issue token uid) \<in> set evs"
      "k = reset_key token" "v = str uid" "e = now + 600"
      unfolding written_by_def by blast
    then show ?thesis by auto
  next
    case new
    then show ?thesis by auto
  qed
qed

lemma written_by_run:
  assumes "written_by evs0 w"
  shows "written_by (evs0 @ evs) (run evs w)"
  using assms
proof (induction evs arbitrary: evs0 w)
  case Nil
  then show ?case by simp
next
  case (Cons ev evs)
  from written_by_step [OF Cons.prems] have "written_by (evs0 @ [ev]) (step ev w)" .
  from Cons.IH [OF this] show ?case by simp
qed

lemma written_by_empty:
  assumes "redis w = Map.empty" and "cache w = Map.empty"
  shows "written_by [] w"
  using assms by (simp add: written_by_def)


text \<open>From empty tiers, a token that a history issues at most once is held by at most one tier.\<close>

lemma held_after_history:
  assumes "redis w0 = Map.empty" and "cache w0 = Map.empty"
    and "length (filter (issues_of token) evs) \<le> 1"
  shows "held (run evs w0) token \<le> 1"
proof -
  from assms(1,2) have "held w0 token = 0"
    by (simp add: held_def)
  with redeemed_bound [of token evs w0] assms(3) show ?thesis
    by simp
qed


subsection \<open>Expiry after 600 seconds\<close>

lemma expired_or_absent:
  assumes "written_by evs w"
    and "\<forall>t g uid'. (t, g, Issue token uid') \<in> set evs \<longrightarrow> t + 600 < later"
  shows "tier_get (redis w) later (reset_key token) = None"
    and "tier_get (cache w) later (reset_key token) = None"
proof -
  have dead: "\<not> later < e"
    if "redis w (reset_key token) = Some (v, e) \<or> cache w (reset_key token) = Some (v, e)" for v e
  proof -
    from assms(1) that obtain t g token' uid' where
      mem: "(t, g, Issue token' uid') \<in> set evs" and key: "reset_key token = reset_key token'"
      and e: "e = t + 600"
      unfolding written_by_def by blast
    from key have "token' = token" by simp
    with mem assms(2) have "t + 600 < later" by blast
    with e show ?thesis by simp
  qed
  show "tier_get (redis w) later (reset_key token) = None"
    using dead by (auto simp add: tier_get_def split: option.splits)
  show "tier_get (cache w) later (reset_key token) = None"
    using dead by (auto simp add: tier_get_def split: option.splits)
qed

lemma redeem_expired:
  assumes "redis w0 = Map.empty" and "cache w0 = Map.empty"
    and "\<forall>t g uid'. (t, g, Issue token uid') \<in> set evs \<longrightarrow> t + 600 < later"
  shows "fst (validate_password_reset_token f later token (run evs w0)) = Inr None"
proof -
  from written_by_run [OF written_by_empty [OF assms(1,2)], of evs]
  have "written_by evs (run evs w0)" by simp
  from expired_or_absent [OF this assms(3)] show ?thesis
    by (simp add: validate_result primary_hit_def secondary_hit_def truthy_def)
qed

text \<open>
  Claim C6. An issue call stores the token with an expiry of 600 seconds in the tier it
  writes to: the entry expires at the time of the call plus 600, and the only tier
  writes it makes are \<^verbatim>\<open>setex(key, 600, value)\<close> and \<^verbatim>\<open>cache.set(key, value, timeout=600)\<close>.
  Starting from empty tiers and after any history of issue and redeem calls, a token that
  no call of the history issued redeems to none, and so does a token whose every
  issue lies more than 600 seconds back, whatever the tiers do during the redeem.
\<close>

theorem tokens_expire_after_600_seconds:
  "(use_redis w \<and> setex_raises f = None \<longrightarrow>
      redis (snd (generate_password_reset_token f now token uid w)) (reset_key token) =
        Some (str uid, now + 600) \<and>
      cache (snd (generate_password_reset_token f now token uid w)) = cache w) \<and>
   (\<not> (use_redis w \<and> setex_raises f = None) \<and> cache_set_raises f = None \<longrightarrow>
      cache (snd (generate_password_reset_token f now token uid w)) (reset_key token) =
        Some (str uid, now + 600) \<and>
      redis (snd (generate_password_reset_token f now token uid w)) = redis w) \<and>
   (\<forall>c \<in> set (new_calls w (snd (generate_password_reset_token f now token uid w))).
      c = RedisSetex (reset_key token) 600 (str uid) \<or> c = CacheSet (reset_key token) (str uid) 600) \<and>
   (redis w0 = Map.empty \<and> cache w0 = Map.empty \<and> (\<forall>ev \<in> set evs. \<not> issues_of token ev) \<longrightarrow>
      fst (validate_password_reset_token f' later token (run evs w0)) = Inr None) \<and>
   (redis w0 = Map.empty \<and> cache w0 = Map.empty \<and>
      (\<forall>t g uid'. (t, g, Issue token uid') \<in> set evs \<longrightarrow> t + 600 < later) \<longrightarrow>
      fst (validate_password_reset_token f' later token (run evs w0)) = Inr None)"
proof (intro conjI impI)
  assume "use_redis w \<and> setex_raises f = None"
  then show "redis (snd (generate_password_reset_token f now token uid w)) (reset_key token) =
        Some (str uid, now + 600)"
    and "cache (snd (generate_password_reset_token f now token uid w)) = cache w"
    by (simp_all add: generate_redis generate_cache tier_set_def)
next
  assume "\<not> (use_redis w \<and> setex_raises f = None) \<and> cache_set_raises f = None"
  then show "cache (snd (generate_password_reset_token f now token uid w)) (reset_key token) =
        Some (str uid, now + 600)"
    and "redis (snd (generate_password_reset_token f now token uid w)) = redis w"
    by (auto simp add: generate_redis generate_cache tier_set_def)
next
  show "\<forall>c \<in> set (new_calls w (snd (generate_password_reset_token f now token uid w))).
      c = RedisSetex (reset_key token) 600 (str uid) \<or> c = CacheSet (reset_key token) (str uid) 600"
    by (simp add: generate_calls)
next
  assume a: "redis w0 = Map.empty \<and> cache w0 = Map.empty \<and> (\<forall>ev \<in> set evs. \<not> issues_of token ev)"
  then have "\<forall>t g uid'. (t, g, Issue token uid') \<in> set evs \<longrightarrow> t + 600 < later"
    by fastforce
  with a show "fst (validate_password_reset_token f' later token (run evs w0)) = Inr None"
    by (simp add: redeem_expired)
next
  assume "redis w0 = Map.empty \<and> cache w0 = Map.empty \<and>
      (\<forall>t g uid'. (t, g, Issue token uid') \<in> set evs \<longrightarrow> t + 600 < later)"
  then show "fst (validate_password_reset_token f' later token (run evs w0)) = Inr None"
    by (simp add: redeem_expired)
qed

theorem tokens_expire_after_600_seconds_witness:
  "use_redis sample_world \<and> setex_raises no_faults = None \<and>
   redis (snd (generate_password_reset_token no_faults 100 ''Zq3vT9'' 7 sample_world)) (reset_key ''Zq3vT9'') =
     Some (str 7, 700) \<and>
   redis sample_world = Map.empty \<and> cache sample_world = Map.empty \<and>
   fst (validate_password_reset_token no_faults 701 ''Zq3vT9''
          (run [(100, no_faults, Issue ''Zq3vT9'' 7)] sample_world)) = Inr None \<and>
   fst (validate_password_reset_token no_faults 101 ''never-issued''
          (run [(100, no_faults, Issue ''Zq3vT9'' 7)] sample_world)) = Inr None"
  using tokens_expire_after_600_seconds [of sample_world no_faults 100 "''Zq3vT9''" 7 sample_world
      "[(100, no_faults, Issue ''Zq3vT9'' 7)]" no_faults 701]
    tokens_expire_after_600_seconds [of sample_world no_faults 100 "''never-issued''" 7 sample_world
      "[(100, no_faults, Issue ''Zq3vT9'' 7)]" no_faults 101]
  by (simp add: sample_defs)

subsection \<open>A token redeems at most once\<close>







subsection \<open>A token for a subject without a user record\<close>

lemma confirm_no_token:
  assumes "PasswordResetConfirmSerializer_is_valid to_internal_value request_data = Inr d"
    and "d ''token'' = Some token" and "d ''new_password'' = Some new_password"
    and "fst (validate_password_reset_token f now token w) = Inr None"
  shows "PasswordResetConfirmView_post to_internal_value f now request_data w =
           (Inr invalid_token_response, snd (validate_password_reset_token f now token w))"
proof -
  from assms(4) obtain w1 where redeem: "validate_password_reset_token f now token w = (Inr None, w1)"
    by (cases "validate_password_reset_token f now token w") simp
  with assms(1-3) have "PasswordResetConfirmView_post to_internal_value f now request_data w =
      (Inr invalid_token_response, w1)"
    by (simp add: PasswordResetConfirmView_post_def getitem_def io_try_def io_bind_def io_return_def
        invalid_token_response_def)
  with redeem show ?thesis by simp
qed

lemma confirm_no_user:
  assumes "PasswordResetConfirmSerializer_is_valid to_internal_value request_data = Inr d"
    and "d ''token'' = Some token" and "d ''new_password'' = Some new_password"
    and "fst (validate_password_reset_token f now token w) = Inr (Some s)"
    and "int_of_str s = Some i" and "\<forall>u \<in> set (users w). ident u \<noteq> i"
  shows "PasswordResetConfirmView_post to_internal_value f now request_data w =
           (Inr invalid_token_response, snd (validate_password_reset_token f now token w))"
proof -
  from assms(4) obtain w1 where redeem: "validate_password_reset_token f now token w = (Inr (Some s), w1)"
    by (cases "validate_password_reset_token f now token w") simp
  then have "users w1 = users w"
    using validate_globals(3) [of f now token w] by simp
  with assms(6) have "filter (\<lambda>u. ident u = i) (users w1) = []"
    by (simp add: filter_empty_conv)
  with assms(5) have lookup: "objects_get_id s w1 = (Inl DoesNotExist, w1)"
    by (simp add: objects_get_id_def objects_get_def)
  from assms(5) have "s \<noteq> []"
    by (auto simp add: int_of_str_def)
  with assms(1-3) redeem lookup have "PasswordResetConfirmView_post to_internal_value f now request_data w =
      (Inr invalid_token_response, w1)"
    by (simp add: PasswordResetConfirmView_post_def getitem_def io_try_def io_bind_def io_return_def
        io_except_def invalid_token_response_def)
  with redeem show ?thesis by simp
qed

text \<open>
  Claim C9. When the token of a confirm request redeems to a subject id that no user
  record has, the answer is the generic status 400 \<^verbatim>\<open>Invalid or expired token\<close> response,
  the same as for a token that no tier holds (one never issued); no password is
  changed; and the redeem call has removed the token, so that a retry with the same
  token gets the same generic rejection. The token is taken to be held by one tier
  only, as an issue call stores it.
\<close>

theorem unknown_subject_consumes_token:
  assumes "PasswordResetConfirmSerializer_is_valid to_internal_value request_data = Inr d"
    and "d ''token'' = Some token" and "d ''new_password'' = Some new_password"
    and "fst (validate_password_reset_token f now token w) = Inr (Some s)"
    and "int_of_str s = Some i" and "\<forall>u \<in> set (users w). ident u \<noteq> i"
    and "held w token \<le> 1"
    and "held never token = 0"
  shows "(let out = PasswordResetConfirmView_post to_internal_value f now request_data w in
            fst out = Inr invalid_token_response \<and>
            users (snd out) = users w \<and>
            held (snd out) token = 0 \<and>
            fst (PasswordResetConfirmView_post to_internal_value f' now' request_data (snd out)) =
              Inr invalid_token_response) \<and>
         fst (PasswordResetConfirmView_post to_internal_value f' now' request_data never) =
           Inr invalid_token_response \<and>
         status_code invalid_token_response = 400"
proof -
  let ?w1 = "snd (validate_password_reset_token f now token w)"
  note first = confirm_no_user [OF assms(1-6)]
  from assms(4) have "fst (validate_password_reset_token f now token w) \<noteq> Inr None"
    by simp
  from validate_held_some [OF this] assms(7) have gone: "held ?w1 token = 0"
    by simp
  from validate_absent(1) [OF gone] have "fst (validate_password_reset_token f' now' token ?w1) = Inr None" .
  note retry = confirm_no_token [OF assms(1-3) this]
  from validate_absent(1) [OF assms(8)] have "fst (validate_password_reset_token f' now' token never) = Inr None" .
  note fresh = confirm_no_token [OF assms(1-3) this]
  from first gone retry fresh show ?thesis
    by (simp add: Let_def validate_globals) (simp add: invalid_token_response_def)
qed

lemma int_of_str_7: "int_of_str ''7'' = Some 7"
  by (simp add: int_of_str_def digit_val_def upt_conv_Cons)

theorem unknown_subject_consumes_token_witness:
  "fst (validate_password_reset_token no_faults 200 ''Zq3vT9'' orphan_world) = Inr (Some ''7'') \<and>
   int_of_str ''7'' = Some 7 \<and>
   held orphan_world ''Zq3vT9'' = 1 \<and>
   held sample_world ''Zq3vT9'' = 0 \<and>
   fst (PasswordResetConfirmView_post Inr no_faults 200 sample_confirm orphan_world) =
     Inr \<lparr>status_code = 400,
          data = [(''detail'', JStr ''Invalid or expired token. Please request a new password reset.'')]\<rparr> \<and>
   fst (PasswordResetConfirmView_post Inr no_faults 300 sample_confirm
          (snd (PasswordResetConfirmView_post Inr no_faults 200 sample_confirm orphan_world))) =
     Inr \<lparr>status_code = 400,
          data = [(''detail'', JStr ''Invalid or expired token. Please request a new password reset.'')]\<rparr> \<and>
   fst (PasswordResetConfirmView_post Inr no_faults 300 sample_confirm sample_world) =
     Inr \<lparr>status_code = 400,
          data = [(''detail'', JStr ''Invalid or expired token. Please request a new password reset.'')]\<rparr>"
proof -
  have valid: "PasswordResetConfirmSerializer_is_valid Inr sample_confirm = Inr sample_confirm"
    by (simp add: PasswordResetConfirmSerializer_is_valid_def PasswordResetConfirmSerializer_validate_def
        sample_confirm_def)
  have token: "sample_confirm ''token'' = Some ''Zq3vT9''"
    and pw: "sample_confirm ''new_password'' = Some ''new-secret''"
    by (simp_all add: sample_confirm_def)
  have redeem: "fst (validate_password_reset_token no_faults 200 ''Zq3vT9'' orphan_world) = Inr (Some ''7'')"
    by (simp add: validate_result primary_hit_def orphan_world_def sample_defs tier_get_def truthy_def)
  have nobody: "\<forall>u \<in> set (users orphan_world). ident u \<noteq> 7"
    by (simp add: orphan_world_def)
  have once: "held orphan_world ''Zq3vT9'' = 1"
    by (simp add: held_def orphan_world_def sample_defs)
  have never: "held sample_world ''Zq3vT9'' = 0"
    by (simp add: held_def sample_defs)
  from once have le: "held orphan_world ''Zq3vT9'' \<le> 1" by simp
  from unknown_subject_consumes_token [OF valid token pw redeem int_of_str_7 nobody le never,
      of no_faults 300]
    redeem once never
  show ?thesis
    by (simp add: Let_def int_of_str_7 invalid_token_response_def)
qed



subsection \<open>Two redeem calls for one token\<close>













end
